theory Spec2Isabelle
  imports Main
begin

section \<open>JavaScript values used by the control plane\<close>

text \<open>
  Strings are lists of characters. The values handed to \<open>auditEvent\<close> as \<open>data\<close> are
  JSON values; an object keeps its keys in insertion order.
\<close>

datatype json =
    JNull
  | JBool bool
  | JNum int
  | JStr string
  | JArr "json list"
  | JObj "(string \<times> json) list"





text \<open>
  \<open>String.prototype.trim\<close>: the white space of ECMAScript among the characters below 256
  (tab, line feed, vertical tab, form feed, carriage return, space, no-break space).
\<close>

definition is_space :: "char \<Rightarrow> bool" where
  "is_space c = (of_char c \<in> {9, 10, 11, 12, 13, 32, 160 :: nat})"

definition trim :: "string \<Rightarrow> string" where
  "trim s = rev (dropWhile is_space (rev (dropWhile is_space s)))"

text \<open>\<open>a || b\<close> on strings: the empty string is the only falsy string.\<close>

definition or_else :: "string \<Rightarrow> string \<Rightarrow> string" where
  "or_else a b = (if a \<noteq> [] then a else b)"

section \<open>Audit log (hash-chained)\<close>



















section \<open>Process state\<close>

text \<open>
  The globals of the main process and the fields of the \<open>runner\<close> object, in one record.
  \<open>permissions\<close> is the \<open>permissions\<close> object of the file \<open>jarvis_cfg.json\<close>: its own
  properties, as a map from keys to the strings stored under them.
  \<open>cursorTimer\<close> says whether the poll interval is set. \<open>audit_calls\<close> lists the calls of
  \<open>auditEvent(type, data)\<close> in order (what one call does to the audit files is
  \<open>auditEvent\<close> above), and \<open>effects\<close> lists what was handed to the window, the dialogs
  and the execution backend, in order. The \<open>ts\<close> field of a payload sent to the window is
  a clock reading that nothing reads back; it is left out of \<open>effects\<close>.
\<close>

datatype point = Point (px: int) (py: int)

record step =
  step_ts :: int
  title :: string
  status :: string
  proof_ref :: string

datatype snapshot =
  Snapshot (snap_running: bool) (snap_paused: bool) (snap_taskText: string)
    (snap_stepsCount: nat) (snap_proofJsonPath: string) (snap_autopilotArmed: bool)
    (snap_hotkey: string) (snap_manualOverride: bool)

datatype effect =
    SendLog string
  | SendStep step
  | SendState snapshot
  | SendAnswer string string string
  | SendReport string
  | StopReportDialog string
  | StopNotification
  | PermissionDialog string string
  | DiagnosticsDialog
  | RunTask string string "json list" string

record jarvis =
  permissions :: "string \<rightharpoonup> string"
  autopilotArmed :: bool
  manualOverride :: bool
  autopilotArmedAt :: int
  cursorTimer :: bool
  lastCursor :: "point option"
  ignoreMouseUntil :: int
  registeredHotkey :: string
  running :: bool
  paused :: bool
  stopRequested :: bool
  taskText :: string
  steps :: "step list"
  error :: string
  nextAction :: string
  lastReport :: string
  proofJsonPath :: string
  audit_calls :: "(string \<times> json) list"
  effects :: "effect list"

text \<open>The state of a process that has just started, with an empty permission file.\<close>

definition initial :: jarvis where
  "initial = \<lparr>permissions = Map.empty, autopilotArmed = False, manualOverride = False,
     autopilotArmedAt = 0, cursorTimer = False, lastCursor = None, ignoreMouseUntil = 0,
     registeredHotkey = [], running = False, paused = False, stopRequested = False,
     taskText = [], steps = [], error = [], nextAction = [], lastReport = [],
     proofJsonPath = [], audit_calls = [], effects = []\<rparr>"

definition call_auditEvent :: "string \<Rightarrow> json \<Rightarrow> jarvis \<Rightarrow> jarvis" where
  "call_auditEvent ty d s = s\<lparr>audit_calls := audit_calls s @ [(ty, d)]\<rparr>"

definition emit :: "effect \<Rightarrow> jarvis \<Rightarrow> jarvis" where
  "emit e s = s\<lparr>effects := effects s @ [e]\<rparr>"

section \<open>Permission gate\<close>

text \<open>
  \<open>permRequest\<close> waits for the message box, and other handlers run while it waits. The
  model follows it in two parts. \<open>permRequest\<close> is the part before the wait: it reads
  the file, answers at once from a persisted decision, and otherwise shows the dialog and
  keeps the object it has read. \<open>permRequest_answered\<close> is the rest, which runs when the
  dialog resolves: it stores the decision in that same object, writes the object to the
  file and makes the audit call.

  \<open>lf\<close> says that reading \<open>jarvis_cfg.json\<close> raises (\<open>loadCfg\<close> then returns an empty
  permission object). An answer is the button index the message box resolves to (\<open>None\<close>
  when the result carries no number) and whether writing the file raises (\<open>saveCfg\<close>
  swallows it).
\<close>

record answer =
  response :: "int option"
  save_fails :: bool

datatype perm_result =
  PermResult (ok: bool) (decision: string) (cached: bool) (once: bool)

datatype request = Resolved perm_result | Awaiting "string \<rightharpoonup> string"

fun resolved :: "request \<Rightarrow> perm_result option" where
  "resolved (Resolved r) = Some r"
| "resolved (Awaiting cfg) = None"

definition loadCfg :: "bool \<Rightarrow> jarvis \<Rightarrow> (string \<rightharpoonup> string)" where
  "loadCfg lf s = (if lf then Map.empty else permissions s)"

definition saveCfg :: "bool \<Rightarrow> (string \<rightharpoonup> string) \<Rightarrow> jarvis \<Rightarrow> jarvis" where
  "saveCfg sf c s = (if sf then s else s\<lparr>permissions := c\<rparr>)"

definition perm_key :: "string \<Rightarrow> string" where
  "perm_key className = or_else (trim className) ''unknown''"

text \<open>
  The assignment \<open>obj[key] = v\<close> of a string \<open>v\<close>. It stores an own property, except
  under the key \<open>__proto__\<close> on an object that has no own property of that name: there it
  calls the setter inherited from \<open>Object.prototype\<close>, which ignores a string. (An object
  parsed from a file that spells out \<open>__proto__\<close> has it as an own property.) Reading
  \<open>obj[key]\<close> without an own property gives \<open>undefined\<close> or an inherited object or
  function, never a string; \<open>None\<close> stands for all of these.
\<close>

definition set_property :: "(string \<rightharpoonup> string) \<Rightarrow> string \<Rightarrow> string \<Rightarrow> (string \<rightharpoonup> string)" where
  "set_property obj key v = (if key = ''__proto__'' \<and> obj key = None then obj else obj(key \<mapsto> v))"

definition decision_data :: "string \<Rightarrow> string \<Rightarrow> string \<Rightarrow> json" where
  "decision_data key dec mode =
     JObj [(''class'', JStr key), (''decision'', JStr dec), (''mode'', JStr mode)]"

definition permRequest :: "string \<Rightarrow> string \<Rightarrow> bool \<Rightarrow> jarvis \<Rightarrow> request \<times> jarvis" where
  "permRequest className whyText lf s =
     (let cfg = loadCfg lf s;
          key = perm_key className;
          cur = cfg key
      in if cur = Some ''allow'' then (Resolved (PermResult True ''allow'' True False), s)
         else if cur = Some ''deny'' then (Resolved (PermResult True ''deny'' True False), s)
         else
           let why = trim whyText
           in (Awaiting cfg, emit (PermissionDialog key why) s))"

definition permRequest_answered ::
  "string \<Rightarrow> (string \<rightharpoonup> string) \<Rightarrow> answer \<Rightarrow> jarvis \<Rightarrow> perm_result \<times> jarvis" where
  "permRequest_answered className cfg a s =
     (let key = perm_key className;
          resp = (case response a of Some n \<Rightarrow> n | None \<Rightarrow> 0)
      in if resp = 2 then
           (PermResult True ''allow'' False False,
            call_auditEvent ''PERMISSION_DECISION'' (decision_data key ''allow'' ''always'')
              (saveCfg (save_fails a) (set_property cfg key ''allow'') s))
         else if resp = 1 then
           (PermResult True ''allow'' False True,
            call_auditEvent ''PERMISSION_DECISION'' (decision_data key ''allow'' ''once'') s)
         else
           (PermResult True ''deny'' False False,
            call_auditEvent ''PERMISSION_DECISION'' (decision_data key ''deny'' ''always'')
              (saveCfg (save_fails a) (set_property cfg key ''deny'') s)))"

section \<open>Runner\<close>

datatype reply = Ok | Err string

definition state :: "jarvis \<Rightarrow> snapshot" where
  "state s = Snapshot (running s) (paused s) (taskText s) (length (steps s)) (proofJsonPath s)
     (autopilotArmed s) (or_else (registeredHotkey s) []) (manualOverride s)"

definition runner_send :: "effect \<Rightarrow> jarvis \<Rightarrow> jarvis" where
  "runner_send e s = emit e s"

definition runner_log :: "string \<Rightarrow> jarvis \<Rightarrow> jarvis" where
  "runner_log line s = runner_send (SendLog line) s"

definition runner_pushStep :: "int \<Rightarrow> string \<Rightarrow> string \<Rightarrow> string \<Rightarrow> jarvis \<Rightarrow> jarvis" where
  "runner_pushStep now t st pr s =
     (let stp = \<lparr>step_ts = now, title = t, status = st, proof_ref = or_else pr []\<rparr>
      in runner_send (SendStep stp) (s\<lparr>steps := steps s @ [stp]\<rparr>))"

definition runner_setState :: "jarvis \<Rightarrow> jarvis" where
  "runner_setState s = runner_send (SendState (state s)) s"

definition nl :: string where
  "nl = [CHR 0x0A]"

fun join :: "string \<Rightarrow> string list \<Rightarrow> string" where
  "join sep [] = []"
| "join sep [a] = a"
| "join sep (a # b # rest) = a @ sep @ join sep (b # rest)"

definition step_line :: "step \<Rightarrow> string" where
  "step_line st =
     ''- '' @ title st @ '' :: '' @ status st
       @ (if proof_ref st \<noteq> [] then '' | '' @ proof_ref st else [])"

definition runner_makeStopReport :: "string \<Rightarrow> jarvis \<Rightarrow> string \<times> jarvis" where
  "runner_makeStopReport reason s =
     (let last5 = map step_line (drop (length (steps s) - 5) (steps s));
          report =
            ''TASK: '' @ or_else (taskText s) ''(none)'' @ nl @ nl
            @ ''LAST 5 STEPS:'' @ nl @ (if last5 \<noteq> [] then join nl last5 else ''(no steps)'') @ nl @ nl
            @ ''ERROR/BLOCK: '' @ or_else (error s) (or_else reason ''(none)'') @ nl @ nl
            @ ''NEXT ACTION: ''
            @ or_else (nextAction s) ''Retry after resolving the block or providing authorization.''
            @ nl @ nl
            @ ''PROOF JSON: '' @ or_else (proofJsonPath s) ''(none)''
      in (report, s\<lparr>lastReport := report\<rparr>))"

definition runner_showStopReport :: "string \<Rightarrow> jarvis \<Rightarrow> jarvis" where
  "runner_showStopReport reason s =
     (case runner_makeStopReport reason s of
        (report, s1) \<Rightarrow>
          runner_send (SendReport report)
            (emit StopNotification (emit (StopReportDialog report) s1)))"

text \<open>
  \<open>start\<close>: the clock reading \<open>now\<close> stamps the first step. On acceptance the call of
  \<open>runTask\<close> is launched and the caller gets \<open>{ ok: true }\<close> at once.
\<close>

definition start ::
  "int \<Rightarrow> string \<Rightarrow> string \<Rightarrow> json list \<Rightarrow> string \<Rightarrow> jarvis \<Rightarrow> reply \<times> jarvis" where
  "start now task apiKey history rulesText s =
     (let t = trim (or_else task []); k = trim (or_else apiKey [])
      in if t = [] then (Err ''EMPTY_TASK'', runner_log ''No task text provided.'' s)
         else if k = [] then (Err ''NO_API_KEY'', runner_log ''API key missing.'' s)
         else if running s then (Err ''ALREADY_RUNNING'', runner_log ''Already running.'' s)
         else
           (Ok,
            emit (RunTask k t history rulesText)
              (runner_setState
                (runner_pushStep now ''Input received'' ''ok'' ''api_key_present=true''
                  (runner_log (''START: '' @ t)
                    (s\<lparr>running := True, paused := False, stopRequested := False,
                       taskText := t, steps := [], error := [], nextAction := [],
                       lastReport := [], proofJsonPath := []\<rparr>))))))"

definition pause :: "jarvis \<Rightarrow> reply \<times> jarvis" where
  "pause s =
     (if \<not> running s then (Err ''NOT_RUNNING'', s)
      else (Ok, runner_setState
                  (runner_log ''PAUSE requested (note: API call cannot be paused in V1).''
                    (s\<lparr>paused := True\<rparr>))))"

definition resume :: "jarvis \<Rightarrow> reply \<times> jarvis" where
  "resume s =
     (if \<not> running s then (Err ''NOT_RUNNING'', s)
      else (Ok, runner_setState (runner_log ''RESUME requested.'' (s\<lparr>paused := False\<rparr>))))"

definition stop :: "string \<Rightarrow> jarvis \<Rightarrow> reply \<times> jarvis" where
  "stop reason s =
     (let s1 = s\<lparr>stopRequested := True\<rparr>;
          s2 = s1\<lparr>error := or_else (error s1) (or_else reason ''STOP pressed by user.'')\<rparr>;
          s3 = s2\<lparr>nextAction := or_else (nextAction s2)
                 ''If you want me to proceed, re-run with explicit authorization where needed.''\<rparr>
      in if \<not> running s3 then
           (Ok, runner_setState (runner_showStopReport (error s3)
                  (runner_log ''STOP (no active run).'' s3)))
         else
           (Ok, runner_showStopReport (error s3)
                  (runner_setState
                    ((runner_log
                       ''STOP requested. If an API call is running, it will finish then be ignored.''
                       s3)\<lparr>running := False, paused := False\<rparr>))))"

text \<open>
  The continuation that runs when the promise of \<open>runTask\<close> settles: fulfilled with a
  result object (or with nothing), or rejected with an exception whose message is given
  (empty when it has none). \<open>now\<close> stamps the step \<open>Answer ready\<close>.
\<close>

datatype run_result =
  RunResult (res_ok: bool) (res_answer: string) (res_proofJsonPath: string) (res_error: string)

datatype outcome = Fulfilled "run_result option" | Rejected string

definition done_report :: "string \<Rightarrow> jarvis \<Rightarrow> string" where
  "done_report answerText s =
     ''TASK: '' @ taskText s @ nl @ nl
     @ ''STATUS: DONE'' @ nl @ nl
     @ ''PROOF JSON: '' @ or_else (proofJsonPath s) ''(none)'' @ nl @ nl
     @ ''OUTPUT (full):'' @ nl @ or_else answerText ''(none)''"

text \<open>The branch \<open>if (!res || !res.ok)\<close>; \<open>err\<close> is \<open>res.error\<close>, empty when there is none.\<close>

definition run_failed :: "string \<Rightarrow> jarvis \<Rightarrow> jarvis" where
  "run_failed err s =
     (let s1 = s\<lparr>error := or_else err ''RUN_FAILED''\<rparr>;
          s2 = s1\<lparr>nextAction := ''Check API key / network and retry.''\<rparr>;
          s3 = runner_setState (s2\<lparr>running := False, paused := False\<rparr>)
      in runner_showStopReport (error s3) s3)"

definition run_done :: "int \<Rightarrow> run_result \<Rightarrow> jarvis \<Rightarrow> jarvis" where
  "run_done now r s =
     (let s1 = s\<lparr>proofJsonPath := or_else (res_proofJsonPath r) []\<rparr>;
          s2 = runner_pushStep now ''Answer ready'' ''ok''
                 (if proofJsonPath s1 \<noteq> [] then ''proof='' @ proofJsonPath s1 else []) s1;
          answerText = res_answer r;
          s3 = runner_send (SendAnswer (taskText s2) answerText (proofJsonPath s2)) s2;
          s4 = (if answerText \<noteq> []
                then runner_log (take 2500 answerText) (runner_log ''ANSWER (top):'' s3)
                else s3);
          s5 = runner_setState (s4\<lparr>running := False, paused := False\<rparr>);
          report = done_report answerText s5
      in runner_send (SendReport report) (s5\<lparr>lastReport := report\<rparr>))"

fun settle :: "int \<Rightarrow> outcome \<Rightarrow> jarvis \<Rightarrow> jarvis" where
  "settle now (Fulfilled res) s =
     (if stopRequested s then
        (let s1 = runner_log ''Result ignored because STOP was requested.'' s;
             s2 = runner_setState (s1\<lparr>running := False, paused := False\<rparr>)
         in runner_showStopReport (or_else (error s2) ''STOP requested by user.'') s2)
      else
        (case res of
           None \<Rightarrow> run_failed [] s
         | Some r \<Rightarrow> if \<not> res_ok r then run_failed (res_error r) s else run_done now r s))"
| "settle now (Rejected msg) s =
     (if stopRequested s then
        (let s1 = runner_setState (s\<lparr>running := False, paused := False\<rparr>)
         in runner_showStopReport (or_else (error s1) ''STOP requested by user.'') s1)
      else
        (let s1 = s\<lparr>error := or_else msg ''EXCEPTION''\<rparr>;
             s2 = s1\<lparr>nextAction := ''Retry. If it persists, check network/firewall and API key.''\<rparr>;
             s3 = runner_setState (s2\<lparr>running := False, paused := False\<rparr>)
         in runner_showStopReport (error s3) s3))"

text \<open>The callbacks \<open>onLog\<close> and \<open>onStep\<close> that \<open>runTask\<close> calls while it runs.\<close>

definition onLog :: "string \<Rightarrow> jarvis \<Rightarrow> jarvis" where
  "onLog line s = runner_log line s"

definition onStep :: "int \<Rightarrow> string \<Rightarrow> string \<Rightarrow> string \<Rightarrow> jarvis \<Rightarrow> jarvis" where
  "onStep now t st pr s = runner_pushStep now t st (or_else pr []) s"

section \<open>Autopilot and dead-man switch\<close>

definition MOUSE_DIST :: int where
  "MOUSE_DIST = 46"

definition POLL_MS :: int where
  "POLL_MS = 90"

definition ARM_GRACE_MS :: int where
  "ARM_GRACE_MS = 1500"

text \<open>
  What the platform answers during one handler: the clock, the pointer position
  (\<open>None\<close> when \<open>screen.getCursorScreenPoint\<close> raises), which accelerators
  \<open>globalShortcut.register\<close> accepts (refusing and raising both move on to the next one),
  and whether \<open>globalShortcut.unregister\<close> raises.
\<close>

record env =
  clock :: int
  cursor :: "point option"
  register_ok :: "string \<Rightarrow> bool"
  unregister_raises :: bool

definition stopCursorWatch :: "jarvis \<Rightarrow> jarvis" where
  "stopCursorWatch s = (if cursorTimer s then s\<lparr>cursorTimer := False\<rparr> else s)"

text \<open>
  \<open>startCursorWatch\<close> reads the pointer outside any \<open>try\<close>: when that raises, the
  exception leaves the function after the old interval was cleared and before the new
  one is set. The second component says whether the function returned normally.
\<close>

definition startCursorWatch :: "env \<Rightarrow> jarvis \<Rightarrow> jarvis \<times> bool" where
  "startCursorWatch e s =
     (let s1 = stopCursorWatch s
      in case cursor e of
           None \<Rightarrow> (s1, False)
         | Some p \<Rightarrow> (s1\<lparr>lastCursor := Some p, cursorTimer := True\<rparr>, True))"

definition unregisterAutopilotHotkey :: "env \<Rightarrow> jarvis \<Rightarrow> jarvis" where
  "unregisterAutopilotHotkey e s =
     (let s1 = (if registeredHotkey s \<noteq> [] \<and> \<not> unregister_raises e
                then call_auditEvent ''AUTOPILOT_HOTKEY_UNREGISTERED''
                       (JObj [(''accelerator'', JStr (registeredHotkey s))]) s
                else s)
      in s1\<lparr>registeredHotkey := []\<rparr>)"

definition tries :: "string list" where
  "tries = [''Space'', ''CommandOrControl+Space'']"

fun try_register :: "env \<Rightarrow> string list \<Rightarrow> jarvis \<Rightarrow> jarvis \<times> bool" where
  "try_register e [] s =
     (call_auditEvent ''AUTOPILOT_HOTKEY_REGISTER_FAIL''
        (JObj [(''tried'', JArr (map JStr tries))]) s, False)"
| "try_register e (accel # rest) s =
     (if register_ok e accel then
        (call_auditEvent ''AUTOPILOT_HOTKEY_REGISTERED'' (JObj [(''accelerator'', JStr accel)])
           (s\<lparr>registeredHotkey := accel\<rparr>), True)
      else try_register e rest s)"

definition registerAutopilotHotkey :: "env \<Rightarrow> jarvis \<Rightarrow> jarvis \<times> bool" where
  "registerAutopilotHotkey e s = try_register e tries (unregisterAutopilotHotkey e s)"

text \<open>
  \<open>setAutopilotArmed(on, why)\<close>. The second component says whether it returned normally;
  it raises only out of \<open>startCursorWatch\<close>, and then the audit record and the state
  notification at its end are skipped.
\<close>

definition setAutopilotArmed :: "bool \<Rightarrow> string \<Rightarrow> env \<Rightarrow> jarvis \<Rightarrow> jarvis \<times> bool" where
  "setAutopilotArmed on why e s =
     (let s1 = s\<lparr>autopilotArmed := on\<rparr>;
          finish = (\<lambda>s'. runner_setState
                      (call_auditEvent ''AUTOPILOT_ARM_STATE''
                         (JObj [(''armed'', JBool (autopilotArmed s')), (''why'', JStr (or_else why []))])
                         s'))
      in if \<not> autopilotArmed s1 then
           (finish (stopCursorWatch (unregisterAutopilotHotkey e s1)), True)
         else
           (let s2 = s1\<lparr>autopilotArmedAt := clock e\<rparr>;
                s3 = s2\<lparr>ignoreMouseUntil := autopilotArmedAt s2 + ARM_GRACE_MS\<rparr>;
                s4 = s3\<lparr>lastCursor := cursor e\<rparr>;
                s5 = fst (registerAutopilotHotkey e s4)
            in case startCursorWatch e s5 of
                 (s6, True) \<Rightarrow> (finish s6, True)
               | (s6, False) \<Rightarrow> (s6, False)))"

definition takeover_line :: "string \<Rightarrow> string" where
  "takeover_line why = ''MANUAL TAKEOVER -> PAUSE ('' @ why @ '')''"

definition triggerManualTakeover :: "string \<Rightarrow> env \<Rightarrow> jarvis \<Rightarrow> jarvis" where
  "triggerManualTakeover why e s =
     (if \<not> autopilotArmed s then s
      else
        (let s1 = s\<lparr>manualOverride := True\<rparr>;
             s2 = call_auditEvent ''MANUAL_TAKEOVER'' (JObj [(''why'', JStr (or_else why []))]) s1;
             s3 = fst (setAutopilotArmed False ''manual_takeover'' e s2);
             s4 = snd (pause s3);
             s5 = runner_log (takeover_line why) s4;
             s6 = runner_send (SendLog (takeover_line why)) s5
         in runner_send (SendState (state s6)) s6))"

text \<open>The body of the interval callback set by \<open>startCursorWatch\<close>.\<close>

definition manhattan :: "point \<Rightarrow> point \<Rightarrow> int" where
  "manhattan p q = \<bar>px p - px q\<bar> + \<bar>py p - py q\<bar>"

definition poll :: "env \<Rightarrow> jarvis \<Rightarrow> jarvis" where
  "poll e s =
     (if \<not> autopilotArmed s then s
      else
        (let now = clock e
         in case cursor e of
              None \<Rightarrow> s
            | Some p \<Rightarrow>
                if autopilotArmedAt s \<noteq> 0 \<and> now - autopilotArmedAt s < ARM_GRACE_MS
                then s\<lparr>lastCursor := Some p\<rparr>
                else
                  (case lastCursor s of
                     None \<Rightarrow> s\<lparr>lastCursor := Some p\<rparr>
                   | Some q \<Rightarrow>
                       (let dist = manhattan p q;
                            s1 = s\<lparr>lastCursor := Some p\<rparr>
                        in if now < ignoreMouseUntil s1 then s1
                           else if dist \<ge> MOUSE_DIST then triggerManualTakeover ''MOUSE_MOVE'' e s1
                           else s1))))"

text \<open>The callback of the registered accelerator.\<close>

definition hotkey :: "env \<Rightarrow> jarvis \<Rightarrow> jarvis" where
  "hotkey e s = (if autopilotArmed s then triggerManualTakeover ''SPACE'' e s else s)"

definition setInjectedIgnoreWindow :: "int \<Rightarrow> env \<Rightarrow> jarvis \<Rightarrow> jarvis" where
  "setInjectedIgnoreWindow ms e s =
     (let v = ms
      in if v > 0 then
           call_auditEvent ''AUTOPILOT_INJECT_IGNORE'' (JObj [(''ms'', JNum v)])
             (s\<lparr>ignoreMouseUntil := clock e + min 4000 v\<rparr>)
         else s)"

definition showDiagnostics :: "jarvis \<Rightarrow> jarvis" where
  "showDiagnostics s =
     emit DiagnosticsDialog
       (call_auditEvent ''DIAGNOSTICS_OPENED''
          (JObj [(''autopilotArmed'', JBool (autopilotArmed s)),
                 (''hotkey'', JStr (or_else (registeredHotkey s) [])),
                 (''manualOverride'', JBool (manualOverride s))]) s)"

section \<open>Tray menu and IPC handlers\<close>

definition allowed :: "perm_result \<Rightarrow> bool" where
  "allowed r = (ok r \<and> decision r = ''allow'')"

text \<open>
  The two arming handlers wait for \<open>permRequest\<close>. What each does once it has the result
  is \<open>tray_arm_rest\<close> and \<open>ipc_arm_rest\<close>; it runs at once when the request is answered
  from the file, and when the dialog resolves otherwise.
\<close>

definition tray_arm_rest :: "perm_result \<Rightarrow> env \<Rightarrow> jarvis \<Rightarrow> jarvis" where
  "tray_arm_rest r e s =
     (if \<not> allowed r then runner_log ''AUTOPILOT_ARM denied by permission.'' s
      else
        (case setAutopilotArmed True ''tray_arm'' e s of
           (s2, True) \<Rightarrow>
             runner_log ''AUTOPILOT ARMED. Space or human mouse move -> takeover+pause.'' s2
         | (s2, False) \<Rightarrow> s2))"

definition tray_arm :: "bool \<Rightarrow> env \<Rightarrow> jarvis \<Rightarrow> jarvis" where
  "tray_arm lf e s =
     (case permRequest ''os_control'' ''Enable global hotkey + dead-man switch.'' lf s of
        (Resolved r, s1) \<Rightarrow> tray_arm_rest r e s1
      | (Awaiting cfg, s1) \<Rightarrow> s1)"

definition tray_arm_answered :: "(string \<rightharpoonup> string) \<Rightarrow> answer \<Rightarrow> env \<Rightarrow> jarvis \<Rightarrow> jarvis" where
  "tray_arm_answered cfg a e s =
     (case permRequest_answered ''os_control'' cfg a s of (r, s1) \<Rightarrow> tray_arm_rest r e s1)"

definition tray_disarm :: "env \<Rightarrow> jarvis \<Rightarrow> jarvis" where
  "tray_disarm e s = runner_log ''AUTOPILOT DISARMED.'' (fst (setAutopilotArmed False ''tray_disarm'' e s))"

definition tray_pause :: "jarvis \<Rightarrow> jarvis" where
  "tray_pause s =
     (if running s \<and> \<not> paused s then snd (pause s)
      else if running s \<and> paused s then snd (resume s)
      else s)"

definition ipc_arm_rest :: "string \<Rightarrow> perm_result \<Rightarrow> env \<Rightarrow> jarvis \<Rightarrow> jarvis" where
  "ipc_arm_rest why r e s =
     (if \<not> allowed r then s
      else fst (setAutopilotArmed True (or_else why ''ipc_arm'') e s))"

definition ipc_arm :: "string \<Rightarrow> bool \<Rightarrow> env \<Rightarrow> jarvis \<Rightarrow> jarvis" where
  "ipc_arm why lf e s =
     (case permRequest ''os_control'' (or_else why ''IPC request'') lf s of
        (Resolved r, s1) \<Rightarrow> ipc_arm_rest why r e s1
      | (Awaiting cfg, s1) \<Rightarrow> s1)"

definition ipc_arm_answered ::
  "string \<Rightarrow> (string \<rightharpoonup> string) \<Rightarrow> answer \<Rightarrow> env \<Rightarrow> jarvis \<Rightarrow> jarvis" where
  "ipc_arm_answered why cfg a e s =
     (case permRequest_answered ''os_control'' cfg a s of (r, s1) \<Rightarrow> ipc_arm_rest why r e s1)"

definition ipc_disarm :: "string \<Rightarrow> env \<Rightarrow> jarvis \<Rightarrow> jarvis" where
  "ipc_disarm why e s = fst (setAutopilotArmed False (or_else why ''ipc_disarm'') e s)"

text \<open>
  Everything that can run in the main process once the window and the tray exist: a tray
  menu entry, an IPC request, the resolving of a permission dialog, the accelerator
  callback, a tick of the poll interval, a callback of the running task, or the settling
  of its promise. A command that resumes a handler after its dialog carries what that
  handler kept across the wait: the permission object it had read.
\<close>

datatype command =
    TrayArm bool env
  | TrayArmAnswered "string \<rightharpoonup> string" answer env
  | TrayDisarm env
  | TrayDiagnostics
  | TrayPause
  | TrayStop
  | IpcStart int string string "json list" string
  | IpcPause
  | IpcResume
  | IpcStop string
  | IpcArm string bool env
  | IpcArmAnswered string "string \<rightharpoonup> string" answer env
  | IpcDisarm string env
  | IpcInjected int env
  | IpcPermRequest string string bool
  | IpcPermAnswered string "string \<rightharpoonup> string" answer
  | HotkeyPressed env
  | PollTick env
  | TaskLog string
  | TaskStep int string string string
  | TaskSettled int outcome

fun handle :: "command \<Rightarrow> jarvis \<Rightarrow> jarvis" where
  "handle (TrayArm lf e) s = tray_arm lf e s"
| "handle (TrayArmAnswered cfg a e) s = tray_arm_answered cfg a e s"
| "handle (TrayDisarm e) s = tray_disarm e s"
| "handle TrayDiagnostics s = showDiagnostics s"
| "handle TrayPause s = tray_pause s"
| "handle TrayStop s = snd (stop ''STOP pressed from tray.'' s)"
| "handle (IpcStart now task apiKey history rulesText) s = snd (start now task apiKey history rulesText s)"
| "handle IpcPause s = snd (pause s)"
| "handle IpcResume s = snd (resume s)"
| "handle (IpcStop reason) s = snd (stop reason s)"
| "handle (IpcArm why lf e) s = ipc_arm why lf e s"
| "handle (IpcArmAnswered why cfg a e) s = ipc_arm_answered why cfg a e s"
| "handle (IpcDisarm why e) s = ipc_disarm why e s"
| "handle (IpcInjected ms e) s = setInjectedIgnoreWindow ms e s"
| "handle (IpcPermRequest className why lf) s = snd (permRequest className (or_else why []) lf s)"
| "handle (IpcPermAnswered className cfg a) s = snd (permRequest_answered className cfg a s)"
| "handle (HotkeyPressed e) s = hotkey e s"
| "handle (PollTick e) s = poll e s"
| "handle (TaskLog line) s = onLog line s"
| "handle (TaskStep now t st pr) s = onStep now t st pr s"
| "handle (TaskSettled now out) s = settle now out s"

definition run :: "command list \<Rightarrow> jarvis \<Rightarrow> jarvis" where
  "run cs s = foldl (\<lambda>s c. handle c s) s cs"

section \<open>Observations on a run\<close>

text \<open>The fields of the \<open>runner\<close> object that hold the state of a task.\<close>

definition runner_fields ::
  "jarvis \<Rightarrow> bool \<times> bool \<times> bool \<times> string \<times> step list \<times> string \<times> string \<times> string \<times> string" where
  "runner_fields s =
     (running s, paused s, stopRequested s, taskText s, steps s, error s, nextAction s,
      lastReport s, proofJsonPath s)"

text \<open>What a handler handed out, and which audit calls it made, between two states.\<close>

definition emitted :: "jarvis \<Rightarrow> jarvis \<Rightarrow> effect list" where
  "emitted s s' = drop (length (effects s)) (effects s')"

definition audited :: "jarvis \<Rightarrow> jarvis \<Rightarrow> (string \<times> json) list" where
  "audited s s' = drop (length (audit_calls s)) (audit_calls s')"



definition count_type :: "string \<Rightarrow> (string \<times> json) list \<Rightarrow> nat" where
  "count_type ty calls = length (filter (\<lambda>c. fst c = ty) calls)"

text \<open>
  The commands that arm (an arming handler, or its resuming after the dialog), and the
  callbacks of a running task.
\<close>

fun is_arm :: "command \<Rightarrow> bool" where
  "is_arm (TrayArm lf e) = True"
| "is_arm (TrayArmAnswered cfg a e) = True"
| "is_arm (IpcArm why lf e) = True"
| "is_arm (IpcArmAnswered why cfg a e) = True"
| "is_arm c = False"


text \<open>
  The permission request of an arming handler, which is for \<open>os_control\<close>, resolved to
  \<open>allow\<close> in the step the command makes from state \<open>s\<close>: from the file, or by the
  answer to its dialog.
\<close>

definition allowed_now :: "request \<Rightarrow> bool" where
  "allowed_now q = (case resolved q of Some r \<Rightarrow> allowed r | None \<Rightarrow> False)"

fun granted :: "command \<Rightarrow> jarvis \<Rightarrow> bool" where
  "granted (TrayArm lf e) s =
     allowed_now (fst (permRequest ''os_control'' ''Enable global hotkey + dead-man switch.'' lf s))"
| "granted (TrayArmAnswered cfg a e) s =
     allowed (fst (permRequest_answered ''os_control'' cfg a s))"
| "granted (IpcArm why lf e) s =
     allowed_now (fst (permRequest ''os_control'' (or_else why ''IPC request'') lf s))"
| "granted (IpcArmAnswered why cfg a e) s =
     allowed (fst (permRequest_answered ''os_control'' cfg a s))"
| "granted c s = False"

text \<open>
  An answer that writes nothing to the permission file: \<open>ALLOW ONCE\<close>, or a write that
  fails.
\<close>

definition writes_nothing :: "answer \<Rightarrow> bool" where
  "writes_nothing a = (response a = Some 1 \<or> save_fails a)"

text \<open>
  A command leaves the decision \<open>v\<close> stored under \<open>k\<close> in place. Only the resuming of a
  request after its dialog writes the file, and it writes the object the request had read
  before the dialog: the decision stays when that object already held it (the request
  read the file after the decision was written) and the request is for another key, or
  when the answer writes nothing.
\<close>

definition kept_by :: "string \<Rightarrow> string \<Rightarrow> string \<Rightarrow> (string \<rightharpoonup> string) \<Rightarrow> answer \<Rightarrow> bool" where
  "kept_by k v className cfg a = (writes_nothing a \<or> (cfg k = Some v \<and> perm_key className \<noteq> k))"

fun keeps :: "string \<Rightarrow> string \<Rightarrow> command \<Rightarrow> bool" where
  "keeps k v (TrayArmAnswered cfg a e) = kept_by k v ''os_control'' cfg a"
| "keeps k v (IpcArmAnswered why cfg a e) = kept_by k v ''os_control'' cfg a"
| "keeps k v (IpcPermAnswered className cfg a) = kept_by k v className cfg a"
| "keeps k v c = True"

text \<open>
  The audit calls of one takeover, in order: the takeover itself, the release of the
  accelerator when one is registered and \<open>globalShortcut.unregister\<close> does not raise,
  and the disarming.
\<close>

definition takeover_audit :: "string \<Rightarrow> env \<Rightarrow> jarvis \<Rightarrow> (string \<times> json) list" where
  "takeover_audit why e s =
     [(''MANUAL_TAKEOVER'', JObj [(''why'', JStr why)])]
     @ (if registeredHotkey s \<noteq> [] \<and> \<not> unregister_raises e
        then [(''AUTOPILOT_HOTKEY_UNREGISTERED'', JObj [(''accelerator'', JStr (registeredHotkey s))])]
        else [])
     @ [(''AUTOPILOT_ARM_STATE'', JObj [(''armed'', JBool False), (''why'', JStr ''manual_takeover'')])]"

text \<open>How many takeovers the audit calls record.\<close>

definition takeovers :: "jarvis \<Rightarrow> nat" where
  "takeovers s = count_type ''MANUAL_TAKEOVER'' (audit_calls s)"

text \<open>The takeovers so far, plus the one an armed autopilot can still fire.\<close>

definition potential :: "jarvis \<Rightarrow> nat" where
  "potential s = takeovers s + (if autopilotArmed s then 1 else 0)"

section \<open>Sample inputs\<close>

text \<open>
  A platform that answers every call, the three answers of the permission dialog, and the
  states of a fresh process after \<open>ARM AUTOPILOT\<close> was chosen at clock reading 1000 and
  after its dialog was answered \<open>ALWAYS ALLOW\<close>.
\<close>

definition env0 :: env where
  "env0 = \<lparr>clock = 1000, cursor = Some (Point 0 0), register_ok = (\<lambda>a. True), unregister_raises = False\<rparr>"

definition env_at :: "int \<Rightarrow> point \<Rightarrow> env" where
  "env_at t p = \<lparr>clock = t, cursor = Some p, register_ok = (\<lambda>a. True), unregister_raises = False\<rparr>"

definition answer_deny :: answer where
  "answer_deny = \<lparr>response = Some 0, save_fails = False\<rparr>"

definition answer_once :: answer where
  "answer_once = \<lparr>response = Some 1, save_fails = False\<rparr>"

definition answer_always :: answer where
  "answer_always = \<lparr>response = Some 2, save_fails = False\<rparr>"

definition asked0 :: jarvis where
  "asked0 = handle (TrayArm False env0) initial"

definition armed0 :: jarvis where
  "armed0 = handle (TrayArmAnswered Map.empty answer_always env0) asked0"

text \<open>A fresh process in which \<open>os_control\<close> was asked for, from \<open>jarvis:perm:request\<close>.\<close>

definition asking0 :: jarvis where
  "asking0 = snd (permRequest ''os_control'' [] False initial)"

text \<open>An answer whose write to \<open>jarvis_cfg.json\<close> fails.\<close>

definition unsaved :: "int \<Rightarrow> answer" where
  "unsaved n = \<lparr>response = Some n, save_fails = True\<rparr>"


definition started0 :: jarvis where
  "started0 = snd (start 1 ''task'' ''key'' [] [] initial)"


section \<open>Audit chain: proofs\<close>

lemma or_else_empty [simp]: "or_else s [] = s"
  by (simp add: or_else_def)











section \<open>Frame lemmas\<close>

text \<open>What each primitive and each runner method leaves alone.\<close>

lemmas prim_defs = emit_def call_auditEvent_def runner_send_def runner_log_def runner_setState_def
  runner_pushStep_def

lemma count_type_append [simp]: "count_type ty (xs @ ys) = count_type ty xs + count_type ty ys"
  by (simp add: count_type_def)

lemma count_type_simps [simp]:
  "count_type ty [] = 0"
  "count_type ty ((ty', d) # cs) = (if ty' = ty then 1 else 0) + count_type ty cs"
  by (simp_all add: count_type_def)

lemma emitted_append: "effects s' = effects s @ xs \<Longrightarrow> emitted s s' = xs"
  by (simp add: emitted_def)

lemma audited_append: "audit_calls s' = audit_calls s @ xs \<Longrightarrow> audited s s' = xs"
  by (simp add: audited_def)

lemma prim_frame [simp]:
  "autopilotArmed (runner_log l s) = autopilotArmed s"
  "audit_calls (runner_log l s) = audit_calls s"
  "permissions (runner_log l s) = permissions s"
  "autopilotArmed (runner_setState s) = autopilotArmed s"
  "audit_calls (runner_setState s) = audit_calls s"
  "permissions (runner_setState s) = permissions s"
  "autopilotArmed (runner_send ef s) = autopilotArmed s"
  "audit_calls (runner_send ef s) = audit_calls s"
  "permissions (runner_send ef s) = permissions s"
  "autopilotArmed (runner_pushStep now t st pr s) = autopilotArmed s"
  "audit_calls (runner_pushStep now t st pr s) = audit_calls s"
  "permissions (runner_pushStep now t st pr s) = permissions s"
  "autopilotArmed (emit ef s) = autopilotArmed s"
  "audit_calls (emit ef s) = audit_calls s"
  "permissions (emit ef s) = permissions s"
  "autopilotArmed (call_auditEvent ty d s) = autopilotArmed s"
  "audit_calls (call_auditEvent ty d s) = audit_calls s @ [(ty, d)]"
  "permissions (call_auditEvent ty d s) = permissions s"
  by (simp_all add: prim_defs Let_def)



lemma showStopReport_frame [simp]:
  "autopilotArmed (runner_showStopReport r s) = autopilotArmed s"
  "audit_calls (runner_showStopReport r s) = audit_calls s"
  "permissions (runner_showStopReport r s) = permissions s"
  by (simp_all add: runner_showStopReport_def runner_makeStopReport_def Let_def prim_defs)

lemma runner_frame [simp]:
  "autopilotArmed (snd (start now task apiKey history rulesText s)) = autopilotArmed s"
  "audit_calls (snd (start now task apiKey history rulesText s)) = audit_calls s"
  "permissions (snd (start now task apiKey history rulesText s)) = permissions s"
  "autopilotArmed (snd (pause s)) = autopilotArmed s"
  "audit_calls (snd (pause s)) = audit_calls s"
  "permissions (snd (pause s)) = permissions s"
  "autopilotArmed (snd (resume s)) = autopilotArmed s"
  "audit_calls (snd (resume s)) = audit_calls s"
  "permissions (snd (resume s)) = permissions s"
  "autopilotArmed (snd (stop r s)) = autopilotArmed s"
  "audit_calls (snd (stop r s)) = audit_calls s"
  "permissions (snd (stop r s)) = permissions s"
  by (simp_all add: start_def pause_def resume_def stop_def Let_def)

lemma settle_frame [simp]:
  "autopilotArmed (settle now out s) = autopilotArmed s"
  "audit_calls (settle now out s) = audit_calls s"
  "permissions (settle now out s) = permissions s"
  by (cases out; simp add: run_failed_def run_done_def Let_def split: option.splits)+

lemma disarm_eq:
  "fst (setAutopilotArmed False why e s) =
     s\<lparr>autopilotArmed := False, registeredHotkey := [], cursorTimer := False,
       audit_calls := audit_calls s
          @ (if registeredHotkey s \<noteq> [] \<and> \<not> unregister_raises e
             then [(''AUTOPILOT_HOTKEY_UNREGISTERED'', JObj [(''accelerator'', JStr (registeredHotkey s))])]
             else [])
          @ [(''AUTOPILOT_ARM_STATE'', JObj [(''armed'', JBool False), (''why'', JStr why)])],
       effects := effects s @ [SendState (Snapshot (running s) (paused s) (taskText s)
          (length (steps s)) (proofJsonPath s) False [] (manualOverride s))]\<rparr>"
  by (simp add: setAutopilotArmed_def Let_def unregisterAutopilotHotkey_def stopCursorWatch_def
      prim_defs state_def)

lemma pause_eq:
  "snd (pause s) =
     (if running s then
        s\<lparr>paused := True,
          effects := effects s @ [SendLog ''PAUSE requested (note: API call cannot be paused in V1).'',
             SendState (Snapshot True True (taskText s) (length (steps s)) (proofJsonPath s)
               (autopilotArmed s) (registeredHotkey s) (manualOverride s))]\<rparr>
      else s)"
  by (simp add: pause_def prim_defs state_def)

lemma takeover_fields:
  assumes "autopilotArmed s"
  shows "audit_calls (triggerManualTakeover why e s) = audit_calls s @ takeover_audit why e s"
    and "autopilotArmed (triggerManualTakeover why e s) = False"
    and "manualOverride (triggerManualTakeover why e s) = True"
    and "lastCursor (triggerManualTakeover why e s) = lastCursor s"
    and "paused (triggerManualTakeover why e s) = (running s \<or> paused s)"
    and "running (triggerManualTakeover why e s) = running s"
  using assms
  by (simp_all add: triggerManualTakeover_def Let_def disarm_eq pause_eq prim_defs takeover_audit_def)

lemma permRequest_frame [simp]:
  "autopilotArmed (snd (permRequest c w lf s)) = autopilotArmed s"
  "takeovers (snd (permRequest c w lf s)) = takeovers s"
  "permissions (snd (permRequest c w lf s)) = permissions s"
  "audit_calls (snd (permRequest c w lf s)) = audit_calls s"
  "autopilotArmed (snd (permRequest_answered c cfg a s)) = autopilotArmed s"
  "takeovers (snd (permRequest_answered c cfg a s)) = takeovers s"
  by (simp_all add: permRequest_def permRequest_answered_def Let_def saveCfg_def takeovers_def)

lemma disarm_frame [simp]:
  "autopilotArmed (fst (setAutopilotArmed False why e s)) = False"
  "takeovers (fst (setAutopilotArmed False why e s)) = takeovers s"
  by (simp_all add: disarm_eq takeovers_def)

lemma takeover_frame:
  "autopilotArmed (triggerManualTakeover why e s) = False"
  "takeovers (triggerManualTakeover why e s) = takeovers s + (if autopilotArmed s then 1 else 0)"
proof -
  show "autopilotArmed (triggerManualTakeover why e s) = False"
  proof (cases "autopilotArmed s")
    case True
    then show ?thesis by (simp add: takeover_fields)
  next
    case False
    then show ?thesis by (simp add: triggerManualTakeover_def)
  qed
  show "takeovers (triggerManualTakeover why e s) = takeovers s + (if autopilotArmed s then 1 else 0)"
  proof (cases "autopilotArmed s")
    case True
    then show ?thesis by (simp add: takeover_fields takeovers_def takeover_audit_def)
  next
    case False
    then show ?thesis by (simp add: triggerManualTakeover_def)
  qed
qed

lemma takeovers_update [simp]:
  "takeovers (s\<lparr>lastCursor := c\<rparr>) = takeovers s"
  "takeovers (s\<lparr>ignoreMouseUntil := i\<rparr>) = takeovers s"
  "takeovers (emit ef s) = takeovers s"
  "takeovers (runner_log l s) = takeovers s"
  by (simp_all add: takeovers_def)

lemma takeovers_runner [simp]:
  "takeovers (snd (start now task apiKey history rulesText s)) = takeovers s"
  "takeovers (snd (pause s)) = takeovers s"
  "takeovers (snd (resume s)) = takeovers s"
  "takeovers (snd (stop r s)) = takeovers s"
  "takeovers (settle now out s) = takeovers s"
  "takeovers (runner_pushStep now t st pr s) = takeovers s"
  "takeovers (runner_setState s) = takeovers s"
  "takeovers (call_auditEvent ty d s) = takeovers s + (if ty = ''MANUAL_TAKEOVER'' then 1 else 0)"
  by (simp_all add: takeovers_def)

lemma poll_frame:
  "autopilotArmed (poll e s) \<longrightarrow> autopilotArmed s"
  "takeovers (poll e s) + (if autopilotArmed (poll e s) then 1 else 0)
     \<le> takeovers s + (if autopilotArmed s then 1 else 0)"
  by (simp_all add: poll_def Let_def takeover_frame split: option.splits)

lemma handle_not_arm:
  assumes "\<not> is_arm c"
  shows "autopilotArmed (handle c s) \<longrightarrow> autopilotArmed s"
    and "potential (handle c s) \<le> potential s"
proof -
  show "autopilotArmed (handle c s) \<longrightarrow> autopilotArmed s"
    using assms
    by (cases c)
      (simp_all add: tray_disarm_def showDiagnostics_def tray_pause_def ipc_disarm_def
        setInjectedIgnoreWindow_def Let_def hotkey_def takeover_frame poll_frame onLog_def onStep_def)
  show "potential (handle c s) \<le> potential s"
    using assms poll_frame(2) [of _ s]
    by (cases c)
      (simp_all add: potential_def tray_disarm_def showDiagnostics_def tray_pause_def ipc_disarm_def
        setInjectedIgnoreWindow_def Let_def hotkey_def takeover_frame onLog_def onStep_def)
qed

lemma run_potential:
  "\<forall>c \<in> set cs. \<not> is_arm c \<Longrightarrow> potential (run cs s) \<le> potential s"
  unfolding run_def
proof (induction cs arbitrary: s)
  case Nil
  then show ?case by simp
next
  case (Cons c cs)
  have "potential (foldl (\<lambda>s c. handle c s) (handle c s) cs) \<le> potential (handle c s)"
    using Cons.prems by (intro Cons.IH) simp
  also have "\<dots> \<le> potential s"
    using Cons.prems by (intro handle_not_arm(2)) simp
  finally show ?case by simp
qed

lemma try_register_permissions [simp]:
  "permissions (fst (try_register e as s)) = permissions s"
  by (induction as) simp_all

lemma setAutopilotArmed_permissions [simp]:
  "permissions (fst (setAutopilotArmed on why e s)) = permissions s"
  by (simp add: setAutopilotArmed_def Let_def registerAutopilotHotkey_def
      unregisterAutopilotHotkey_def stopCursorWatch_def startCursorWatch_def
      split: option.splits prod.splits bool.splits)

lemma takeover_permissions [simp]:
  "permissions (triggerManualTakeover why e s) = permissions s"
  by (simp add: triggerManualTakeover_def Let_def)

lemma poll_permissions [simp]: "permissions (poll e s) = permissions s"
  by (simp add: poll_def Let_def split: option.splits)

section \<open>Permission gate: proofs\<close>

lemma permRequest_cached:
  assumes "\<not> lf" and "permissions s (perm_key c) = Some v"
    and "v = ''allow'' \<or> v = ''deny''"
  shows "permRequest c w lf s = (Resolved (PermResult True v True False), s)"
  using assms by (auto simp: permRequest_def Let_def loadCfg_def)

lemma permRequest_prompts:
  assumes "permissions s (perm_key c) \<noteq> Some ''allow''" and "permissions s (perm_key c) \<noteq> Some ''deny''"
  shows "permRequest c w lf s = (Awaiting (loadCfg lf s), emit (PermissionDialog (perm_key c) (trim w)) s)"
  using assms by (simp add: permRequest_def Let_def loadCfg_def)

lemma permRequest_outcomes:
  "fst (permRequest c w lf s) = Resolved (PermResult True ''allow'' True False)
   \<or> fst (permRequest c w lf s) = Resolved (PermResult True ''deny'' True False)
   \<or> fst (permRequest c w lf s) = Awaiting (loadCfg lf s)"
  by (simp add: permRequest_def Let_def)

lemma answered_result:
  "response a = Some 1 \<Longrightarrow> fst (permRequest_answered c cfg a s) = PermResult True ''allow'' False True"
  "response a = Some 2 \<Longrightarrow> fst (permRequest_answered c cfg a s) = PermResult True ''allow'' False False"
  "response a \<noteq> Some 1 \<Longrightarrow> response a \<noteq> Some 2 \<Longrightarrow>
     fst (permRequest_answered c cfg a s) = PermResult True ''deny'' False False"
  "cached (fst (permRequest_answered c cfg a s)) = False"
  by (cases "response a"; simp add: permRequest_answered_def Let_def)+


lemma answered_once:
  "response a = Some 1 \<Longrightarrow>
     permRequest_answered c cfg a s =
       (PermResult True ''allow'' False True,
        call_auditEvent ''PERMISSION_DECISION'' (decision_data (perm_key c) ''allow'' ''once'') s)"
  by (simp add: permRequest_answered_def Let_def)

lemma answered_permissions:
  "permissions (snd (permRequest_answered c cfg a s))
     = (if writes_nothing a then permissions s
        else set_property cfg (perm_key c) (decision (fst (permRequest_answered c cfg a s))))"
  by (cases "response a")
    (simp_all add: permRequest_answered_def Let_def saveCfg_def writes_nothing_def prim_defs)

lemma answered_audit:
  "audit_calls (snd (permRequest_answered c cfg a s))
     = audit_calls s @ [(''PERMISSION_DECISION'',
                         decision_data (perm_key c) (decision (fst (permRequest_answered c cfg a s)))
                           (if once (fst (permRequest_answered c cfg a s)) then ''once'' else ''always''))]"
  by (simp add: permRequest_answered_def Let_def saveCfg_def prim_defs)

lemma answered_stores:
  assumes "perm_key c \<noteq> ''__proto__''" and "\<not> save_fails a" and "response a \<noteq> Some 1"
  shows "permissions (snd (permRequest_answered c cfg a s)) (perm_key c)
           = Some (decision (fst (permRequest_answered c cfg a s)))"
  using assms by (simp add: answered_permissions writes_nothing_def set_property_def)

lemma answered_keeps:
  assumes "kept_by k v c cfg a" and "permissions s k = Some v"
  shows "permissions (snd (permRequest_answered c cfg a s)) k = Some v"
  using assms by (auto simp: answered_permissions kept_by_def set_property_def)

lemma rest_frame [simp]:
  "permissions (tray_arm_rest r e s) = permissions s"
  "permissions (ipc_arm_rest why r e s) = permissions s"
  by (simp_all add: tray_arm_rest_def ipc_arm_rest_def case_prod_beta split: bool.splits)

lemma rest_denied:
  "\<not> allowed r \<Longrightarrow> autopilotArmed (tray_arm_rest r e s) = autopilotArmed s"
  "\<not> allowed r \<Longrightarrow> autopilotArmed (ipc_arm_rest why r e s) = autopilotArmed s"
  by (simp_all add: tray_arm_rest_def ipc_arm_rest_def)

lemma arm_eq:
  "tray_arm lf e s =
     (case fst (permRequest ''os_control'' ''Enable global hotkey + dead-man switch.'' lf s) of
        Resolved r \<Rightarrow>
          tray_arm_rest r e (snd (permRequest ''os_control'' ''Enable global hotkey + dead-man switch.'' lf s))
      | Awaiting cfg \<Rightarrow> snd (permRequest ''os_control'' ''Enable global hotkey + dead-man switch.'' lf s))"
  "ipc_arm why lf e s =
     (case fst (permRequest ''os_control'' (or_else why ''IPC request'') lf s) of
        Resolved r \<Rightarrow> ipc_arm_rest why r e (snd (permRequest ''os_control'' (or_else why ''IPC request'') lf s))
      | Awaiting cfg \<Rightarrow> snd (permRequest ''os_control'' (or_else why ''IPC request'') lf s))"
  by (simp_all add: tray_arm_def ipc_arm_def split: prod.splits request.splits)

lemma arm_permissions [simp]:
  "permissions (tray_arm lf e s) = permissions s"
  "permissions (ipc_arm why lf e s) = permissions s"
  by (simp_all add: arm_eq split: request.splits)

lemma rest_armed:
  assumes "\<not> autopilotArmed s"
  shows "autopilotArmed (tray_arm_rest r e s) \<Longrightarrow> allowed r"
    and "autopilotArmed (ipc_arm_rest why r e s) \<Longrightarrow> allowed r"
  using assms by (cases "allowed r"; simp add: rest_denied)+

lemma arm_granted:
  assumes "\<not> autopilotArmed s"
  shows "autopilotArmed (tray_arm lf e s) \<Longrightarrow> granted (TrayArm lf e) s"
    and "autopilotArmed (ipc_arm why lf e s) \<Longrightarrow> granted (IpcArm why lf e) s"
    and "autopilotArmed (tray_arm_answered cfg a e s) \<Longrightarrow> granted (TrayArmAnswered cfg a e) s"
    and "autopilotArmed (ipc_arm_answered why cfg a e s) \<Longrightarrow> granted (IpcArmAnswered why cfg a e) s"
proof -
  have n: "\<not> autopilotArmed (snd (permRequest c w lf s))" for c w
    using assms by simp
  have m: "\<not> autopilotArmed (snd (permRequest_answered c cfg a s))" for c
    using assms by simp
  show "autopilotArmed (tray_arm lf e s) \<Longrightarrow> granted (TrayArm lf e) s"
    using rest_armed(1) [OF n] assms
    by (cases "fst (permRequest ''os_control'' ''Enable global hotkey + dead-man switch.'' lf s)")
      (auto simp: arm_eq allowed_now_def)
  show "autopilotArmed (ipc_arm why lf e s) \<Longrightarrow> granted (IpcArm why lf e) s"
    using rest_armed(2) [OF n] assms
    by (cases "fst (permRequest ''os_control'' (or_else why ''IPC request'') lf s)")
      (auto simp: arm_eq allowed_now_def)
  show "autopilotArmed (tray_arm_answered cfg a e s) \<Longrightarrow> granted (TrayArmAnswered cfg a e) s"
    using rest_armed(1) [OF m]
    by (simp add: tray_arm_answered_def case_prod_beta)
  show "autopilotArmed (ipc_arm_answered why cfg a e s) \<Longrightarrow> granted (IpcArmAnswered why cfg a e) s"
    using rest_armed(2) [OF m]
    by (simp add: ipc_arm_answered_def case_prod_beta)
qed

lemma handle_keeps:
  assumes "keeps k v c" and "permissions s k = Some v"
  shows "permissions (handle c s) k = Some v"
  using assms
  by (cases c)
    (simp_all add: tray_arm_answered_def ipc_arm_answered_def case_prod_beta answered_keeps
      tray_disarm_def showDiagnostics_def tray_pause_def ipc_disarm_def setInjectedIgnoreWindow_def
      Let_def hotkey_def onLog_def onStep_def)

lemma run_keeps:
  "\<forall>c \<in> set cs. keeps k v c \<Longrightarrow> permissions s k = Some v \<Longrightarrow> permissions (run cs s) k = Some v"
  unfolding run_def
  by (induction cs arbitrary: s) (simp_all add: handle_keeps)

lemma stored_is_served:
  assumes "permissions s (perm_key c) = Some v" and "v = ''allow'' \<or> v = ''deny''"
    and "\<forall>x \<in> set cs. keeps (perm_key c) v x" and "\<not> lf"
  shows "permRequest c w lf (run cs s) = (Resolved (PermResult True v True False), run cs s)"
  using assms by (intro permRequest_cached run_keeps) simp_all

section \<open>Runner: proofs\<close>





section \<open>Sample inputs: evaluation\<close>

lemma armed0_facts:
  "autopilotArmed armed0" "autopilotArmedAt armed0 = 1000" "ignoreMouseUntil armed0 = 2500"
  "lastCursor armed0 = Some (Point 0 0)" "registeredHotkey armed0 = ''Space''"
  by (code_simp+)

lemma sample_keys:
  "perm_key ''os_control'' = ''os_control''" "perm_key ''net'' = ''net''"
  by (code_simp+)

lemma trims: "trim ''  '' = []" "trim ''go'' = ''go''" "trim ''key'' = ''key''" "trim [] = []"
  by (code_simp+)

section \<open>The claims\<close>




text \<open>
  C3. Whatever runs in the main process, if autopilot is not armed before and is armed
  after, then what ran is one of the two arming handlers, or the resuming of one after its
  dialog, and its permission request for \<open>os_control\<close> resolved to \<open>allow\<close> in that
  very step.
\<close>

theorem arming_needs_grant:
  assumes "\<not> autopilotArmed s" and "autopilotArmed (handle c s)"
  shows "granted c s"
proof (cases c)
  case (TrayArm lf e)
  with assms(2) have "autopilotArmed (tray_arm lf e s)" by simp
  then show ?thesis unfolding TrayArm by (rule arm_granted(1) [OF assms(1)])
next
  case (TrayArmAnswered cfg a e)
  with assms(2) have "autopilotArmed (tray_arm_answered cfg a e s)" by simp
  then show ?thesis unfolding TrayArmAnswered by (rule arm_granted(3) [OF assms(1)])
next
  case (IpcArm why lf e)
  with assms(2) have "autopilotArmed (ipc_arm why lf e s)" by simp
  then show ?thesis unfolding IpcArm by (rule arm_granted(2) [OF assms(1)])
next
  case (IpcArmAnswered why cfg a e)
  with assms(2) have "autopilotArmed (ipc_arm_answered why cfg a e s)" by simp
  then show ?thesis unfolding IpcArmAnswered by (rule arm_granted(4) [OF assms(1)])
qed (use assms handle_not_arm(1) [of c s] in simp_all)

theorem arming_needs_grant_witness:
  "\<not> autopilotArmed asked0
   \<and> autopilotArmed (handle (TrayArmAnswered Map.empty answer_always env0) asked0)
   \<and> granted (TrayArmAnswered Map.empty answer_always env0) asked0"
proof -
  have n: "\<not> autopilotArmed asked0" by code_simp
  have a: "autopilotArmed (handle (TrayArmAnswered Map.empty answer_always env0) asked0)"
    using armed0_facts(1) by (simp add: armed0_def)
  from arming_needs_grant [OF n a] n a show ?thesis by simp
qed

text \<open>
  C4, as the code has it. A request for a class with no persisted decision shows the
  dialog. Answered \<open>ALLOW ONCE\<close>, it returns \<open>allow\<close> and leaves the permission file as it
  is, and the next request for the class shows the dialog again. Answered
  \<open>ALWAYS ALLOW\<close>, whatever ran while the dialog was open, it returns \<open>allow\<close>; and when
  the write of the file succeeds and the class key is not \<open>__proto__\<close>, every later request
  for the class that reads the file returns \<open>allow\<close> with \<open>cached\<close> set and changes nothing,
  so it shows no dialog, as long as every command that ran in between left the stored
  decision in place.
\<close>

theorem once_asks_again_always_is_cached:
  assumes "permissions s (perm_key c) \<noteq> Some ''allow''"
    and "permissions s (perm_key c) \<noteq> Some ''deny''"
  shows "permRequest c w lf s = (Awaiting (loadCfg lf s), emit (PermissionDialog (perm_key c) (trim w)) s)
         \<and> (response a = Some 1 \<longrightarrow>
               (let s1 = snd (permRequest c w lf s);
                    s2 = snd (permRequest_answered c (loadCfg lf s) a s1)
                in fst (permRequest_answered c (loadCfg lf s) a s1) = PermResult True ''allow'' False True
                   \<and> permissions s2 = permissions s
                   \<and> permRequest c w2 lf2 s2
                       = (Awaiting (loadCfg lf2 s2), emit (PermissionDialog (perm_key c) (trim w2)) s2)))
         \<and> (response a = Some 2 \<and> \<not> save_fails a \<and> perm_key c \<noteq> ''__proto__''
              \<and> (\<forall>x \<in> set cs. keeps (perm_key c) ''allow'' x) \<and> \<not> lf'
             \<longrightarrow>
               (let s1 = run cs0 (snd (permRequest c w lf s));
                    s2 = snd (permRequest_answered c (loadCfg lf s) a s1)
                in fst (permRequest_answered c (loadCfg lf s) a s1) = PermResult True ''allow'' False False
                   \<and> permRequest c w' lf' (run cs s2)
                       = (Resolved (PermResult True ''allow'' True False), run cs s2)))"
proof (intro conjI impI)
  show "permRequest c w lf s = (Awaiting (loadCfg lf s), emit (PermissionDialog (perm_key c) (trim w)) s)"
    using assms by (rule permRequest_prompts)
next
  assume once: "response a = Some 1"
  let ?s1 = "snd (permRequest c w lf s)"
  let ?s2 = "snd (permRequest_answered c (loadCfg lf s) a ?s1)"
  have r: "fst (permRequest_answered c (loadCfg lf s) a ?s1) = PermResult True ''allow'' False True"
    using once by (rule answered_result(1))
  have p: "permissions ?s2 = permissions s"
    using once by (simp add: answered_permissions writes_nothing_def)
  have "permRequest c w2 lf2 ?s2
      = (Awaiting (loadCfg lf2 ?s2), emit (PermissionDialog (perm_key c) (trim w2)) ?s2)"
    using assms by (intro permRequest_prompts) (simp_all add: p)
  with r p show "let s1 = snd (permRequest c w lf s);
        s2 = snd (permRequest_answered c (loadCfg lf s) a s1)
    in fst (permRequest_answered c (loadCfg lf s) a s1) = PermResult True ''allow'' False True
       \<and> permissions s2 = permissions s
       \<and> permRequest c w2 lf2 s2
           = (Awaiting (loadCfg lf2 s2), emit (PermissionDialog (perm_key c) (trim w2)) s2)"
    by (simp add: Let_def)
next
  assume h: "response a = Some 2 \<and> \<not> save_fails a \<and> perm_key c \<noteq> ''__proto__''
      \<and> (\<forall>x \<in> set cs. keeps (perm_key c) ''allow'' x) \<and> \<not> lf'"
  let ?s1 = "run cs0 (snd (permRequest c w lf s))"
  let ?s2 = "snd (permRequest_answered c (loadCfg lf s) a ?s1)"
  have r: "fst (permRequest_answered c (loadCfg lf s) a ?s1) = PermResult True ''allow'' False False"
    using h by (simp add: answered_result(2))
  have "permissions ?s2 (perm_key c) = Some ''allow''"
    using h r answered_stores [of c a "loadCfg lf s" ?s1] by simp
  then have "permRequest c w' lf' (run cs ?s2) = (Resolved (PermResult True ''allow'' True False), run cs ?s2)"
    using h by (intro stored_is_served) simp_all
  with r show "let s1 = run cs0 (snd (permRequest c w lf s));
        s2 = snd (permRequest_answered c (loadCfg lf s) a s1)
    in fst (permRequest_answered c (loadCfg lf s) a s1) = PermResult True ''allow'' False False
       \<and> permRequest c w' lf' (run cs s2)
           = (Resolved (PermResult True ''allow'' True False), run cs s2)"
    by (simp add: Let_def)
qed

theorem once_asks_again_always_is_cached_witness:
  "permissions initial (perm_key ''os_control'') = None
   \<and> resolved (fst (permRequest ''os_control'' [] False initial)) = None
   \<and> fst (permRequest_answered ''os_control'' (loadCfg False initial) answer_once asking0)
       = PermResult True ''allow'' False True
   \<and> resolved (fst (permRequest ''os_control'' ''more'' False
        (snd (permRequest_answered ''os_control'' (loadCfg False initial) answer_once asking0)))) = None
   \<and> fst (permRequest_answered ''os_control'' (loadCfg False initial) answer_always
            (run [TrayPause] asking0))
       = PermResult True ''allow'' False False
   \<and> keeps (perm_key ''os_control'') ''allow'' (IpcPermRequest ''net'' [] False)
   \<and> keeps (perm_key ''os_control'') ''allow''
        (IpcPermAnswered ''net'' [''os_control'' \<mapsto> ''allow''] answer_deny)
   \<and> permRequest ''os_control'' ''again'' False
        (run [IpcPermRequest ''net'' [] False,
              IpcPermAnswered ''net'' [''os_control'' \<mapsto> ''allow''] answer_deny]
           (snd (permRequest_answered ''os_control'' (loadCfg False initial) answer_always
                   (run [TrayPause] asking0))))
       = (Resolved (PermResult True ''allow'' True False),
          run [IpcPermRequest ''net'' [] False,
              IpcPermAnswered ''net'' [''os_control'' \<mapsto> ''allow''] answer_deny]
            (snd (permRequest_answered ''os_control'' (loadCfg False initial) answer_always
                    (run [TrayPause] asking0))))"
proof -
  have f: "permissions initial (perm_key ''os_control'') = None"
    by (simp add: initial_def)
  have a: "permissions initial (perm_key ''os_control'') \<noteq> Some ''allow''"
    and d: "permissions initial (perm_key ''os_control'') \<noteq> Some ''deny''"
    by (simp_all add: f)
  have k: "perm_key ''os_control'' \<noteq> ''__proto__''" by code_simp
  have c: "\<forall>x \<in> set [IpcPermRequest ''net'' [] False,
              IpcPermAnswered ''net'' [''os_control'' \<mapsto> ''allow''] answer_deny]. keeps (perm_key ''os_control'') ''allow'' x"
    by (simp add: kept_by_def sample_keys)
  have c': "keeps (perm_key ''os_control'') ''allow'' (IpcPermRequest ''net'' [] False)"
    and c'': "keeps (perm_key ''os_control'') ''allow''
        (IpcPermAnswered ''net'' [''os_control'' \<mapsto> ''allow''] answer_deny)"
    by (simp_all add: kept_by_def sample_keys)
  have o: "response answer_once = Some 1" by (simp add: answer_once_def)
  have h: "response answer_always = Some 2 \<and> \<not> save_fails answer_always
      \<and> perm_key ''os_control'' \<noteq> ''__proto__''
      \<and> (\<forall>x \<in> set [IpcPermRequest ''net'' [] False,
              IpcPermAnswered ''net'' [''os_control'' \<mapsto> ''allow''] answer_deny]. keeps (perm_key ''os_control'') ''allow'' x)
      \<and> \<not> False"
    using k c by (simp add: answer_always_def)
  note once = once_asks_again_always_is_cached
    [OF a d, of "[]" False answer_once "''more''" False, unfolded Let_def, folded asking0_def]
  note always = once_asks_again_always_is_cached
    [OF a d, of "[]" False answer_always _ _ "[IpcPermRequest ''net'' [] False,
              IpcPermAnswered ''net'' [''os_control'' \<mapsto> ''allow''] answer_deny]" False "[TrayPause]" "''again''",
     unfolded Let_def, folded asking0_def]
  from once have p1: "resolved (fst (permRequest ''os_control'' [] False initial)) = None"
    by simp
  from once o have
    p2: "fst (permRequest_answered ''os_control'' (loadCfg False initial) answer_once asking0)
          = PermResult True ''allow'' False True"
    and q: "permRequest ''os_control'' ''more'' False
          (snd (permRequest_answered ''os_control'' (loadCfg False initial) answer_once asking0))
        = (Awaiting (loadCfg False
             (snd (permRequest_answered ''os_control'' (loadCfg False initial) answer_once asking0))),
           emit (PermissionDialog (perm_key ''os_control'') (trim ''more''))
             (snd (permRequest_answered ''os_control'' (loadCfg False initial) answer_once asking0)))"
    by blast+
  from q have p3: "resolved (fst (permRequest ''os_control'' ''more'' False
        (snd (permRequest_answered ''os_control'' (loadCfg False initial) answer_once asking0)))) = None"
    by simp
  from always h have
    p4: "fst (permRequest_answered ''os_control'' (loadCfg False initial) answer_always
            (run [TrayPause] asking0))
          = PermResult True ''allow'' False False"
    and p5: "permRequest ''os_control'' ''again'' False
        (run [IpcPermRequest ''net'' [] False,
              IpcPermAnswered ''net'' [''os_control'' \<mapsto> ''allow''] answer_deny]
           (snd (permRequest_answered ''os_control'' (loadCfg False initial) answer_always
                   (run [TrayPause] asking0))))
       = (Resolved (PermResult True ''allow'' True False),
          run [IpcPermRequest ''net'' [] False,
              IpcPermAnswered ''net'' [''os_control'' \<mapsto> ''allow''] answer_deny]
            (snd (permRequest_answered ''os_control'' (loadCfg False initial) answer_always
                    (run [TrayPause] asking0))))"
    by blast+
  from f p1 p2 p3 p4 c' c'' p5 show ?thesis
    by (intro conjI)
qed

text \<open>
  C4 as stated fails: \<open>os_control\<close> is asked for in a fresh process and answered
  \<open>ALWAYS ALLOW\<close>, and the write of \<open>jarvis_cfg.json\<close> fails and is swallowed. The request
  returns \<open>allow\<close>; the next request for the class is not answered from the file and shows
  the dialog again.
\<close>

theorem always_allow_lost_when_write_fails:
  "fst (permRequest_answered ''os_control'' Map.empty (unsaved 2) asking0)
     = PermResult True ''allow'' False False
   \<and> resolved (fst (permRequest ''os_control'' [] False
        (snd (permRequest_answered ''os_control'' Map.empty (unsaved 2) asking0)))) = None
   \<and> emitted (snd (permRequest_answered ''os_control'' Map.empty (unsaved 2) asking0))
        (snd (permRequest ''os_control'' [] False
           (snd (permRequest_answered ''os_control'' Map.empty (unsaved 2) asking0))))
       = [PermissionDialog ''os_control'' []]"
  by code_simp

text \<open>
  C5, as the code has it. A request that is resolved by the dialog makes exactly one audit
  call, \<open>PERMISSION_DECISION\<close> with the class, the decision and the mode, when the dialog
  resolves, and its result is not \<open>cached\<close>. The part of a request before the dialog, which
  is all of a request served from the permission file, makes no audit call; it either
  returns one of the two \<open>cached\<close> results or waits for the dialog.
\<close>

theorem fresh_decisions_are_audited:
  "audited s (snd (permRequest c w lf s)) = []
   \<and> fst (permRequest c w lf s)
       \<in> {Resolved (PermResult True ''allow'' True False),
          Resolved (PermResult True ''deny'' True False),
          Awaiting (loadCfg lf s)}
   \<and> cached (fst (permRequest_answered c cfg a s')) = False
   \<and> audited s' (snd (permRequest_answered c cfg a s'))
       = [(''PERMISSION_DECISION'',
           JObj [(''class'', JStr (perm_key c)),
                 (''decision'', JStr (decision (fst (permRequest_answered c cfg a s')))),
                 (''mode'', JStr (if once (fst (permRequest_answered c cfg a s')) then ''once''
                                  else ''always''))])]"
proof -
  have "audited s (snd (permRequest c w lf s)) = []"
    by (intro audited_append) simp
  moreover have "audited s' (snd (permRequest_answered c cfg a s'))
       = [(''PERMISSION_DECISION'',
           JObj [(''class'', JStr (perm_key c)),
                 (''decision'', JStr (decision (fst (permRequest_answered c cfg a s')))),
                 (''mode'', JStr (if once (fst (permRequest_answered c cfg a s')) then ''once''
                                  else ''always''))])]"
    by (intro audited_append) (simp add: answered_audit decision_data_def)
  ultimately show ?thesis
    using permRequest_outcomes [of c w lf s] by (simp add: answered_result(4))
qed

text \<open>
  C5 as stated fails: with \<open>allow\<close> persisted for \<open>os_control\<close>, a request is served from
  the file and no audit call is made.
\<close>

theorem cached_request_not_audited:
  "resolved (fst (permRequest ''os_control'' [] False
      (snd (permRequest_answered ''os_control'' Map.empty answer_always asking0))))
     = Some (PermResult True ''allow'' True False)
   \<and> audit_calls (snd (permRequest ''os_control'' [] False
         (snd (permRequest_answered ''os_control'' Map.empty answer_always asking0))))
       = audit_calls (snd (permRequest_answered ''os_control'' Map.empty answer_always asking0))"
  by code_simp

text \<open>
  C6. Armed, with the grace period over and the ignore window expired: a poll makes its
  sample the new baseline in every case; when the sample is at Manhattan distance 46 or
  more from the previous one, the poll makes the audit calls of exactly one takeover and
  exactly one disarming, and autopilot is disarmed with the manual-override flag set; when
  the distance is below 46 (45, say) nothing changes but the baseline.
\<close>

theorem poll_at_threshold:
  assumes "autopilotArmed s"
    and "1500 \<le> clock e - autopilotArmedAt s"
    and "ignoreMouseUntil s \<le> clock e"
    and "lastCursor s = Some q" and "cursor e = Some p"
  shows "lastCursor (poll e s) = Some p
         \<and> (46 \<le> manhattan p q \<longrightarrow>
               audited s (poll e s) = takeover_audit ''MOUSE_MOVE'' e s
               \<and> count_type ''MANUAL_TAKEOVER'' (audited s (poll e s)) = 1
               \<and> count_type ''AUTOPILOT_ARM_STATE'' (audited s (poll e s)) = 1
               \<and> \<not> autopilotArmed (poll e s) \<and> manualOverride (poll e s))
         \<and> (manhattan p q < 46 \<longrightarrow> poll e s = s\<lparr>lastCursor := Some p\<rparr>)"
proof (cases "46 \<le> manhattan p q")
  case True
  with assms have eq: "poll e s = triggerManualTakeover ''MOUSE_MOVE'' e (s\<lparr>lastCursor := Some p\<rparr>)"
    by (simp add: poll_def ARM_GRACE_MS_def MOUSE_DIST_def Let_def)
  have a: "audited s (poll e s) = takeover_audit ''MOUSE_MOVE'' e s"
    using assms(1) by (intro audited_append) (simp add: eq takeover_fields takeover_audit_def)
  show ?thesis
    using True assms(1) by (simp add: a) (simp add: eq takeover_fields takeover_audit_def)
next
  case False
  with assms show ?thesis
    by (simp add: poll_def ARM_GRACE_MS_def MOUSE_DIST_def Let_def)
qed

theorem poll_at_threshold_witness:
  "autopilotArmed armed0
   \<and> clock (env_at 2600 (Point 40 (- 6))) - autopilotArmedAt armed0 = 1600
   \<and> ignoreMouseUntil armed0 = 2500
   \<and> manhattan (Point 40 (- 6)) (Point 0 0) = 46
   \<and> count_type ''MANUAL_TAKEOVER'' (audited armed0 (poll (env_at 2600 (Point 40 (- 6))) armed0)) = 1
   \<and> count_type ''AUTOPILOT_ARM_STATE'' (audited armed0 (poll (env_at 2600 (Point 40 (- 6))) armed0)) = 1
   \<and> \<not> autopilotArmed (poll (env_at 2600 (Point 40 (- 6))) armed0)
   \<and> manhattan (Point 40 (- 5)) (Point 0 0) = 45
   \<and> poll (env_at 2600 (Point 40 (- 5))) armed0 = armed0\<lparr>lastCursor := Some (Point 40 (- 5))\<rparr>"
proof -
  have g: "1500 \<le> clock (env_at 2600 p) - autopilotArmedAt armed0" for p
    by (simp add: armed0_facts env_at_def)
  have i: "ignoreMouseUntil armed0 \<le> clock (env_at 2600 p)" for p
    by (simp add: armed0_facts env_at_def)
  have c: "cursor (env_at 2600 p) = Some p" for p
    by (simp add: env_at_def)
  from poll_at_threshold [OF armed0_facts(1) g i armed0_facts(4) c, of "Point 40 (- 6)"]
    poll_at_threshold [OF armed0_facts(1) g i armed0_facts(4) c, of "Point 40 (- 5)"]
  show ?thesis
    by (simp add: armed0_facts env_at_def manhattan_def takeover_audit_def)
qed

text \<open>
  C7. Armed at a clock reading other than zero: a poll less than 1500 ms after arming
  changes nothing but the baseline, which becomes the sample, however far the pointer moved
  (and changes nothing at all when the pointer cannot be read).
\<close>

theorem poll_in_grace:
  assumes "autopilotArmed s" and "autopilotArmedAt s \<noteq> 0"
    and "clock e - autopilotArmedAt s < 1500"
  shows "poll e s = (case cursor e of None \<Rightarrow> s | Some p \<Rightarrow> s\<lparr>lastCursor := Some p\<rparr>)"
  using assms by (simp add: poll_def ARM_GRACE_MS_def split: option.splits)

theorem poll_in_grace_witness:
  "autopilotArmed armed0 \<and> autopilotArmedAt armed0 = 1000
   \<and> clock (env_at 2000 (Point 900 900)) - autopilotArmedAt armed0 = 1000
   \<and> poll (env_at 2000 (Point 900 900)) armed0 = armed0\<lparr>lastCursor := Some (Point 900 900)\<rparr>"
proof -
  have a: "autopilotArmedAt armed0 \<noteq> 0" by (simp add: armed0_facts)
  have g: "clock (env_at 2000 (Point 900 900)) - autopilotArmedAt armed0 < 1500"
    by (simp add: armed0_facts env_at_def)
  from poll_in_grace [OF armed0_facts(1) a g] show ?thesis
    by (simp add: armed0_facts env_at_def)
qed

text \<open>
  C8. \<open>start\<close> with blank task text returns \<open>EMPTY_TASK\<close>; otherwise with a blank
  credential \<open>NO_API_KEY\<close>; otherwise while a task is running \<open>ALREADY_RUNNING\<close>. In each
  case the fields of the runner are what they were.
\<close>

theorem start_rejected:
  assumes "trim task = [] \<or> trim apiKey = [] \<or> running s"
  shows "fst (start now task apiKey history rulesText s)
           = Err (if trim task = [] then ''EMPTY_TASK''
                  else if trim apiKey = [] then ''NO_API_KEY'' else ''ALREADY_RUNNING'')
         \<and> runner_fields (snd (start now task apiKey history rulesText s)) = runner_fields s"
  using assms by (auto simp: start_def Let_def runner_fields_def prim_defs)

theorem start_rejected_witness:
  "fst (start 7 ''  '' ''key'' [] [] initial) = Err ''EMPTY_TASK''
   \<and> fst (start 7 ''go'' [] [] [] initial) = Err ''NO_API_KEY''
   \<and> fst (start 7 ''go'' ''key'' [] [] started0) = Err ''ALREADY_RUNNING''
   \<and> runner_fields (snd (start 7 ''go'' ''key'' [] [] started0)) = runner_fields started0"
proof -
  have r: "running started0" by code_simp
  show ?thesis
    using start_rejected [where task = "''  ''" and apiKey = "''key''" and s = initial and now = 7
        and history = "[]" and rulesText = "[]"]
      start_rejected [where task = "''go''" and apiKey = "[]" and s = initial and now = 7
        and history = "[]" and rulesText = "[]"]
      start_rejected [where task = "''go''" and apiKey = "''key''" and s = started0 and now = 7
        and history = "[]" and rulesText = "[]"]
      r
    by (simp add: trims)
qed




text \<open>
  C10. When autopilot is not armed, the takeover trigger, the accelerator callback and
  the poll leave the whole state as it is. A takeover always leaves autopilot disarmed, and
  over any sequence of commands that does not arm, at most one takeover is recorded.
\<close>

theorem takeover_once:
  "(\<not> autopilotArmed s \<longrightarrow> triggerManualTakeover why e s = s \<and> hotkey e s = s \<and> poll e s = s)
   \<and> \<not> autopilotArmed (triggerManualTakeover why e s)
   \<and> ((\<forall>c \<in> set cs. \<not> is_arm c) \<longrightarrow> takeovers (run cs s) \<le> takeovers s + 1)"
proof -
  have a: "\<not> autopilotArmed s \<longrightarrow> triggerManualTakeover why e s = s \<and> hotkey e s = s \<and> poll e s = s"
    by (simp add: triggerManualTakeover_def hotkey_def poll_def)
  have b: "\<not> autopilotArmed (triggerManualTakeover why e s)"
    by (simp add: takeover_frame)
  have c: "takeovers (run cs s) \<le> takeovers s + 1" if "\<forall>c \<in> set cs. \<not> is_arm c"
  proof -
    have "takeovers (run cs s) \<le> potential (run cs s)" by (simp add: potential_def)
    also have "\<dots> \<le> potential s" using that by (rule run_potential)
    also have "\<dots> \<le> takeovers s + 1" by (simp add: potential_def)
    finally show ?thesis .
  qed
  from a b c show ?thesis by blast
qed

theorem takeover_once_witness:
  "\<not> autopilotArmed initial
   \<and> triggerManualTakeover ''SPACE'' env0 initial = initial
   \<and> poll env0 initial = initial
   \<and> \<not> is_arm (HotkeyPressed env0) \<and> \<not> is_arm (PollTick (env_at 3000 (Point 500 0)))
   \<and> takeovers (run [HotkeyPressed env0, PollTick (env_at 3000 (Point 500 0))] armed0)
       \<le> takeovers armed0 + 1"
proof -
  have n: "\<not> autopilotArmed initial" by (simp add: initial_def)
  have c: "\<forall>c \<in> set [HotkeyPressed env0, PollTick (env_at 3000 (Point 500 0))]. \<not> is_arm c"
    by simp
  from takeover_once [of initial "''SPACE''" env0 "[]"] n
    takeover_once [of armed0 "''SPACE''" env0 "[HotkeyPressed env0, PollTick (env_at 3000 (Point 500 0))]"] c
  show ?thesis by simp
qed

end
